theory Spec2Isabelle
  imports Complex_Main
begin

section \<open>Python values and the string operations the scripts use\<close>

text \<open>
  A Python \<open>str\<close> is the list of its code points, so that every string the
  scripts can hold is a value of the model, a lone surrogate included. \<open>lit\<close>
  gives the \<open>str\<close> of a literal. Bytes and the text of HTTP headers (decoded as
  ISO-8859-1 by \<open>http.server\<close>) are 8-bit strings.
\<close>

type_synonym pystr = "nat list"

definition lit :: "string \<Rightarrow> pystr" where
  "lit s = map of_char s"

text \<open>
  The scripts are dynamically typed: the clipboard, the history and the request
  body are whatever \<open>json.loads\<close> produced. A value is therefore modelled as the
  tree \<open>json.loads\<close> returns. An object is the list of its items (keys distinct,
  as in a Python dict). Numbers are integers; a non-integral number takes the
  same branch as a non-zero integer everywhere below.
\<close>

datatype json =
    JNull
  | JBool bool
  | JNum int
  | JStr pystr
  | JArr "json list"
  | JObj "(pystr \<times> json) list"

text \<open>An exception that leaves a function is the left summand of its result.\<close>

datatype error =
    KeyError
  | TypeError
  | AttributeError
  | ValueError
  | UnicodeEncodeError
  | OSError
  | EngineError
  | SystemExit
  | KeyboardInterrupt

text \<open>
  \<open>isinstance(e, Exception)\<close>: what an \<open>except Exception\<close> clause catches.
  \<open>SystemExit\<close> and \<open>KeyboardInterrupt\<close> are not of that class.
\<close>

fun is_Exception :: "error \<Rightarrow> bool" where
  "is_Exception SystemExit = False"
| "is_Exception KeyboardInterrupt = False"
| "is_Exception _ = True"

text \<open>Truth value of a Python object, as \<open>if x\<close> and \<open>not x\<close> test it.\<close>

fun truthy :: "json \<Rightarrow> bool" where
  "truthy JNull = False"
| "truthy (JBool b) = b"
| "truthy (JNum n) = (n \<noteq> 0)"
| "truthy (JStr s) = (s \<noteq> [])"
| "truthy (JArr xs) = (xs \<noteq> [])"
| "truthy (JObj kvs) = (kvs \<noteq> [])"

text \<open>\<open>str.isspace\<close> of one character: the code points \<open>str.strip()\<close> removes.\<close>

definition py_isspace :: "nat \<Rightarrow> bool" where
  "py_isspace c \<longleftrightarrow>
     c \<in> set [0x09, 0x0A, 0x0B, 0x0C, 0x0D, 0x1C, 0x1D, 0x1E, 0x1F, 0x20, 0x85, 0xA0,
                0x1680, 0x2000, 0x2001, 0x2002, 0x2003, 0x2004, 0x2005, 0x2006, 0x2007,
                0x2008, 0x2009, 0x200A, 0x2028, 0x2029, 0x202F, 0x205F, 0x3000]"

definition py_strip :: "pystr \<Rightarrow> pystr" where
  "py_strip s = rev (dropWhile py_isspace (rev (dropWhile py_isspace s)))"

text \<open>\<open>s.startswith(p)\<close>.\<close>

definition startswith :: "'a list \<Rightarrow> 'a list \<Rightarrow> bool" where
  "startswith s p \<longleftrightarrow> take (length p) s = p"

text \<open>\<open>sub in s\<close> on strings: \<open>sub\<close> occurs in \<open>s\<close> as a contiguous block.\<close>

fun py_in :: "'a list \<Rightarrow> 'a list \<Rightarrow> bool" where
  "py_in sub [] = (sub = [])"
| "py_in sub (c # cs) = (startswith (c # cs) sub \<or> py_in sub cs)"

text \<open>
  \<open>s.encode("utf-8")\<close> does not raise: no code point of \<open>s\<close> is a surrogate.
\<close>

definition utf8_encodable :: "pystr \<Rightarrow> bool" where
  "utf8_encodable s \<longleftrightarrow> list_all (\<lambda>c. c < 0xD800 \<or> 0xDFFF < c) s"

text \<open>\<open>d[key]\<close>: only a dict can be indexed by a string.\<close>

fun py_getitem :: "json \<Rightarrow> pystr \<Rightarrow> error + json" where
  "py_getitem (JObj kvs) k = (case map_of kvs k of None \<Rightarrow> Inl KeyError | Some v \<Rightarrow> Inr v)"
| "py_getitem _ k = Inl TypeError"

text \<open>\<open>d.get(key, default)\<close>: only a dict has the method.\<close>

fun py_get :: "json \<Rightarrow> pystr \<Rightarrow> json \<Rightarrow> error + json" where
  "py_get (JObj kvs) k d = (case map_of kvs k of None \<Rightarrow> Inr d | Some v \<Rightarrow> Inr v)"
| "py_get _ k d = Inl AttributeError"

text \<open>
  \<open>for x in v\<close>: a list yields its elements, a string its characters, a dict its
  keys; nothing else can be iterated.
\<close>

fun py_iter :: "json \<Rightarrow> error + json list" where
  "py_iter (JArr xs) = Inr xs"
| "py_iter (JStr s) = Inr (map (\<lambda>c. JStr [c]) s)"
| "py_iter (JObj kvs) = Inr (map (\<lambda>kv. JStr (fst kv)) kvs)"
| "py_iter _ = Inl TypeError"

text \<open>The dict \<open>{"type": t, "value": v}\<close> of two strings that both scripts build.\<close>

definition clipboard_context :: "pystr \<Rightarrow> pystr \<Rightarrow> json" where
  "clipboard_context t v = JObj [(lit ''type'', JStr t), (lit ''value'', JStr v)]"

section \<open>zsh\_ai\_server.py: the suggestion\<close>

definition MAX_HISTORY_LINES :: nat where "MAX_HISTORY_LINES = 10"
definition MAX_CMD_LENGTH :: nat where "MAX_CMD_LENGTH = 20"
definition N_CTX :: nat where "N_CTX = 1024"
definition RESERVED_TOKENS :: nat where "RESERVED_TOKENS = 100"
definition MAX_PROMPT_TOKENS :: nat where "MAX_PROMPT_TOKENS = N_CTX - RESERVED_TOKENS"

definition BASE_FALLBACK :: "(pystr \<times> pystr) list" where
  "BASE_FALLBACK =
     [(lit ''ssh'', lit ''ssh root@192.168.1.1''),
      (lit ''ls'', lit ''ls -l''),
      (lit ''cd'', lit ''cd ~''),
      (lit ''git'', lit ''git status''),
      (lit ''docker'', lit ''docker ps -a''),
      (lit ''kinit'', lit ''kinit yourname@DOMAIN.COM''),
      (lit ''kubectl'', lit ''kubectl get pods'')]"

definition truncate_text :: "pystr \<Rightarrow> nat \<Rightarrow> pystr" where
  "truncate_text text max_len =
     (if length text > max_len then take max_len text @ lit ''...'' else text)"

text \<open>
  The comprehension \<open>[truncate_text(cmd, MAX_CMD_LENGTH) for cmd in history if
  cmd.startswith(prefix)]\<close>: an element that is not a string has no
  \<open>startswith\<close>.
\<close>

fun history_comprehension :: "pystr \<Rightarrow> json list \<Rightarrow> error + pystr list" where
  "history_comprehension prefix [] = Inr []"
| "history_comprehension prefix (JStr cmd # rest) =
     (case history_comprehension prefix rest of
        Inl e \<Rightarrow> Inl e
      | Inr out \<Rightarrow>
          Inr (if startswith cmd prefix then truncate_text cmd MAX_CMD_LENGTH # out else out))"
| "history_comprehension prefix (_ # rest) = Inl AttributeError"

definition history_filtered :: "pystr \<Rightarrow> json \<Rightarrow> error + pystr list" where
  "history_filtered prefix history =
     (case py_iter history of
        Inl e \<Rightarrow> Inl e
      | Inr items \<Rightarrow>
          (case history_comprehension prefix items of
             Inl e \<Rightarrow> Inl e
           | Inr out \<Rightarrow> Inr (drop (length out - MAX_HISTORY_LINES) out)))"

text \<open>
  An f-string \<open>f"... {v}"\<close> with a string \<open>v\<close> appends it. For a true value that is
  not a string the text is never seen: the next statement of
  \<open>generate_general_suggestion\<close> that can raise is \<open>.strip()\<close> on the same value
  in \<open>_clip_usable\<close>, which raises AttributeError for every prefix.
\<close>

fun template :: "pystr \<Rightarrow> json \<Rightarrow> error + pystr" where
  "template l (JStr v) = Inr (l @ v)"
| "template l _ = Inl AttributeError"

text \<open>Lines 69 to 76: \<open>clip_value\<close> and \<open>custom_fallback\<close>.\<close>

definition custom_fallback :: "pystr \<Rightarrow> json \<Rightarrow> error + pystr" where
  "custom_fallback prefix clipboard =
     (case py_getitem clipboard (lit ''value'') of
        Inl e \<Rightarrow> Inl e
      | Inr clip_value \<Rightarrow>
     (case map_of BASE_FALLBACK prefix of
        None \<Rightarrow> Inl KeyError
      | Some base \<Rightarrow>
     (if prefix = lit ''ssh'' then
        (case py_getitem clipboard (lit ''type'') of
           Inl e \<Rightarrow> Inl e
         | Inr t \<Rightarrow>
             if t = JStr (lit ''ip'') \<and> truthy clip_value
             then template (lit ''ssh root@'') clip_value
             else Inr base)
      else if prefix = lit ''cd'' then
        (case py_getitem clipboard (lit ''type'') of
           Inl e \<Rightarrow> Inl e
         | Inr t \<Rightarrow>
             if t = JStr (lit ''path'') \<and> truthy clip_value
             then template (lit ''cd '') clip_value
             else Inr base)
      else if prefix = lit ''git'' \<and> truthy clip_value
      then template (lit ''git add '') clip_value
      else Inr base)))"

text \<open>
  \<open>_clip_usable(pfx, cb)\<close>; \<open>v = (cb.get("value", "") or "").strip()\<close> is computed
  before the prefix is looked at.
\<close>

definition clip_usable :: "pystr \<Rightarrow> json \<Rightarrow> error + bool" where
  "clip_usable pfx cb =
     (case py_get cb (lit ''type'') (JStr (lit '''')) of
        Inl e \<Rightarrow> Inl e
      | Inr t \<Rightarrow>
     (case py_get cb (lit ''value'') (JStr (lit '''')) of
        Inl e \<Rightarrow> Inl e
      | Inr raw \<Rightarrow>
     (case (if truthy raw then raw else JStr (lit '''')) of
        JStr s \<Rightarrow>
          (let v = py_strip s in
           if pfx = lit ''ssh'' then
             Inr (t = JStr (lit ''ip'') \<and> \<not> py_in (lit ''/'') v \<and> \<not> py_in (lit '' '') v)
           else if pfx = lit ''cd'' then Inr (t = JStr (lit ''path'') \<and> v \<noteq> lit '''')
           else if pfx = lit ''git'' then Inr (t = JStr (lit ''text'') \<and> v \<noteq> lit '''')
           else Inr False)
      | _ \<Rightarrow> Inl AttributeError)))"

text \<open>
  The prompt is an f-string around fixed prose; it is kept as the values that
  are put into it, in the order of the text. \<open>Whole\<close> is the prompt, \<open>First100\<close>
  is \<open>prompt[:100]\<close>.
\<close>

datatype rule = Rule_ssh | Rule_cd | Rule_git | Rule_other

record prompt_fields =
  p_prefix :: pystr
  p_clip_type :: json
  p_clip_ok :: bool
  p_clip_for_prompt :: json
  p_prefix_rule :: rule
  p_history :: "pystr list"

datatype prompt = Whole prompt_fields | First100 prompt_fields

text \<open>
  \<open>prompt.encode("utf-8")\<close> does not raise. A string that the f-string shows is
  put in as it is; a value of another type, and the history list, are shown
  through \<open>repr\<close>, which escapes what cannot be encoded.
\<close>

fun shown_encodable :: "json \<Rightarrow> bool" where
  "shown_encodable (JStr s) = utf8_encodable s"
| "shown_encodable _ = True"

definition prompt_encodable :: "prompt_fields \<Rightarrow> bool" where
  "prompt_encodable p \<longleftrightarrow>
     utf8_encodable (p_prefix p) \<and> shown_encodable (p_clip_type p)
     \<and> shown_encodable (p_clip_for_prompt p)"

text \<open>
  The model object: \<open>tokenize\<close> gives the number of tokens,
  \<open>create_completion\<close> gives \<open>output["choices"][0]["text"]\<close>; both may raise.
\<close>

record llm =
  tokenize :: "prompt \<Rightarrow> error + nat"
  create_completion :: "prompt \<Rightarrow> error + pystr"

definition truncate_prompt_by_tokens :: "llm \<Rightarrow> prompt_fields \<Rightarrow> nat \<Rightarrow> error + prompt" where
  "truncate_prompt_by_tokens m p max_tokens =
     (if \<not> prompt_encodable p then Inl UnicodeEncodeError
      else
        (case tokenize m (Whole p) of
           Inl e \<Rightarrow> Inl e
         | Inr n \<Rightarrow> Inr (if n \<le> max_tokens then Whole p else First100 p)))"

definition prefix_rule :: "pystr \<Rightarrow> rule" where
  "prefix_rule prefix =
     (if prefix = lit ''ssh'' then Rule_ssh
      else if prefix = lit ''cd'' then Rule_cd
      else if prefix = lit ''git'' then Rule_git
      else Rule_other)"

text \<open>
  Lines 118 to 124, on the text the engine gave: what is returned, given the
  fallback and \<open>clip_value\<close>. \<open>clip_value in suggestion\<close> with a value that is
  not a string raises TypeError inside the \<open>try\<close>, so the fallback is returned.
\<close>

definition validate :: "pystr \<Rightarrow> json \<Rightarrow> pystr \<Rightarrow> pystr \<Rightarrow> pystr" where
  "validate prefix clip_value fallback text =
     (let suggestion = py_strip text in
      if suggestion \<noteq> lit '''' \<and> startswith suggestion prefix then
        (if prefix = lit ''ssh'' \<and> truthy clip_value then
           (case clip_value of
              JStr cv \<Rightarrow>
                if py_in cv suggestion then suggestion
                else if suggestion \<noteq> prefix then suggestion else fallback
            | _ \<Rightarrow> fallback)
         else if suggestion \<noteq> prefix then suggestion else fallback)
      else fallback)"

text \<open>
  \<open>generate_general_suggestion\<close>. The \<open>try\<close> around the completion call has the
  clause \<open>except Exception\<close>: an exception of that class gives the fallback, any
  other leaves the function. (The line the clause writes to the error stream is
  not part of the result.)
\<close>

definition generate_general_suggestion :: "pystr \<Rightarrow> json \<Rightarrow> json \<Rightarrow> llm \<Rightarrow> error + pystr" where
  "generate_general_suggestion prefix clipboard history m =
     (case history_filtered prefix history of
        Inl e \<Rightarrow> Inl e
      | Inr hist \<Rightarrow>
     (case py_getitem clipboard (lit ''value'') of
        Inl e \<Rightarrow> Inl e
      | Inr clip_value \<Rightarrow>
     (case custom_fallback prefix clipboard of
        Inl e \<Rightarrow> Inl e
      | Inr fallback \<Rightarrow>
     (case clip_usable prefix clipboard of
        Inl e \<Rightarrow> Inl e
      | Inr clip_ok \<Rightarrow>
     (case py_get clipboard (lit ''type'') (JStr (lit '''')) of
        Inl e \<Rightarrow> Inl e
      | Inr shown_type \<Rightarrow>
     (case truncate_prompt_by_tokens m
             \<lparr>p_prefix = prefix, p_clip_type = shown_type, p_clip_ok = clip_ok,
              p_clip_for_prompt = (if clip_ok then clip_value else JStr (lit '''')),
              p_prefix_rule = prefix_rule prefix, p_history = hist\<rparr>
             MAX_PROMPT_TOKENS of
        Inl e \<Rightarrow> Inl e
      | Inr p \<Rightarrow>
     (case create_completion m p of
        Inl e \<Rightarrow> if is_Exception e then Inr fallback else Inl e
      | Inr text \<Rightarrow> Inr (validate prefix clip_value fallback text))))))))"

section \<open>zsh\_ai\_server.py: the HTTP handler\<close>

text \<open>
  \<open>int(s)\<close> on the text of a header: the whitespace \<open>int\<close> drops around the
  number, one sign, then decimal digits with single underscores between
  digits. \<open>None\<close> is ValueError. (The length limit of recent interpreters is
  not modelled.)
\<close>

definition int_isspace :: "char \<Rightarrow> bool" where
  "int_isspace c \<longleftrightarrow>
     c \<in> set [CHR 0x09, CHR 0x0A, CHR 0x0B, CHR 0x0C, CHR 0x0D, CHR 0x20, CHR 0x85, CHR 0xA0]"

definition int_strip :: "string \<Rightarrow> string" where
  "int_strip s = rev (dropWhile int_isspace (rev (dropWhile int_isspace s)))"

definition is_digit :: "char \<Rightarrow> bool" where
  "is_digit c \<longleftrightarrow> c \<in> set ''0123456789''"

definition digit_val :: "char \<Rightarrow> nat" where
  "digit_val c = of_char c - 48"

fun py_digits :: "nat \<Rightarrow> string \<Rightarrow> nat option" where
  "py_digits acc [] = Some acc"
| "py_digits acc [c] = (if is_digit c then Some (10 * acc + digit_val c) else None)"
| "py_digits acc (c # d # ds) =
     (if is_digit c then py_digits (10 * acc + digit_val c) (d # ds)
      else if c = CHR ''_'' \<and> is_digit d then py_digits (10 * acc + digit_val d) ds
      else None)"

definition py_nat :: "string \<Rightarrow> nat option" where
  "py_nat s = (case s of [] \<Rightarrow> None | c # cs \<Rightarrow> if is_digit c then py_digits (digit_val c) cs else None)"

definition py_int :: "string \<Rightarrow> int option" where
  "py_int s =
     (case int_strip s of
        [] \<Rightarrow> None
      | c # cs \<Rightarrow>
          if c = CHR ''-'' then map_option (\<lambda>n. - int n) (py_nat cs)
          else if c = CHR ''+'' then map_option int (py_nat cs)
          else map_option int (py_nat (c # cs)))"

text \<open>
  What the handler reads of a request: the path, the \<open>Content-Length\<close> header
  if there is one, and the bytes that \<open>rfile\<close> can deliver.
\<close>

record request =
  path :: string
  content_length :: "string option"
  rfile :: string

text \<open>
  \<open>_json_response(code, payload)\<close>: the status code and the JSON payload that
  are written, or the exception of
  \<open>json.dumps(payload, ensure_ascii=False).encode("utf-8")\<close>, which raises when a
  string of the payload cannot be encoded.
\<close>

type_synonym response = "nat \<times> json"

fun json_encodable :: "json \<Rightarrow> bool" where
  "json_encodable (JStr s) = utf8_encodable s"
| "json_encodable (JArr xs) = list_all json_encodable xs"
| "json_encodable (JObj kvs) = list_all (\<lambda>kv. utf8_encodable (fst kv) \<and> json_encodable (snd kv)) kvs"
| "json_encodable _ = True"

definition json_response :: "nat \<Rightarrow> json \<Rightarrow> error + response" where
  "json_response code payload =
     (if json_encodable payload then Inr (code, payload) else Inl UnicodeEncodeError)"


text \<open>
  \<open>get_llm()\<close>: the global \<open>LLM\<close> if it is set, else what \<open>load_ai_model()\<close>
  gives (it leaves by \<open>sys.exit(1)\<close> when the model file is missing). The second
  component is the new value of the global.
\<close>

definition get_llm :: "llm option \<Rightarrow> error + llm \<Rightarrow> (error + llm) \<times> llm option" where
  "get_llm LLM load_ai_model =
     (case LLM of
        Some m \<Rightarrow> (Inr m, LLM)
      | None \<Rightarrow>
          (case load_ai_model of
             Inl e \<Rightarrow> (Inl e, None)
           | Inr m \<Rightarrow> (Inr m, Some m)))"

text \<open>
  \<open>not prefix or prefix not in BASE_FALLBACK\<close>: a list or a dict that is not empty
  cannot be hashed.
\<close>

definition bad_prefix :: "json \<Rightarrow> error + bool" where
  "bad_prefix prefix =
     (if \<not> truthy prefix then Inr True
      else (case prefix of
              JStr p \<Rightarrow> Inr (map_of BASE_FALLBACK p = None)
            | JArr _ \<Rightarrow> Inl TypeError
            | JObj _ \<Rightarrow> Inl TypeError
            | _ \<Rightarrow> Inr True))"

text \<open>
  \<open>do_POST\<close>. \<open>loads\<close> stands for \<open>json.loads(body.decode("utf-8"))\<close> (\<open>None\<close> when
  it raises). The result is the response written, or the exception that leaves
  the handler with nothing written, and the new value of the global \<open>LLM\<close>.
\<close>

definition do_POST ::
  "(string \<Rightarrow> json option) \<Rightarrow> error + llm \<Rightarrow> llm option \<Rightarrow> request \<Rightarrow> (error + response) \<times> llm option" where
  "do_POST loads load_ai_model LLM req =
     (if path req \<noteq> ''/complete''
      then (json_response 404 (JObj [(lit ''error'', JStr (lit ''not_found''))]), LLM)
      else
     (case py_int (case content_length req of None \<Rightarrow> ''0'' | Some h \<Rightarrow> h) of
        None \<Rightarrow> (Inl ValueError, LLM)
      | Some len \<Rightarrow>
     (let body = (if len > 0 then take (nat len) (rfile req) else ''{}'') in
      case loads body of
        None \<Rightarrow> (json_response 400 (JObj [(lit ''error'', JStr (lit ''bad_json''))]), LLM)
      | Some r \<Rightarrow>
     (case py_get r (lit ''prefix'') (JStr (lit '''')) of
        Inl e \<Rightarrow> (Inl e, LLM)
      | Inr prefix \<Rightarrow>
     (case py_get r (lit ''clipboard'') (clipboard_context (lit ''text'') (lit '''')) of
        Inl e \<Rightarrow> (Inl e, LLM)
      | Inr clipboard \<Rightarrow>
     (case py_get r (lit ''history'') (JArr []) of
        Inl e \<Rightarrow> (Inl e, LLM)
      | Inr history \<Rightarrow>
     (case bad_prefix prefix of
        Inl e \<Rightarrow> (Inl e, LLM)
      | Inr True \<Rightarrow> (json_response 400 (JObj [(lit ''error'', JStr (lit ''bad_prefix''))]), LLM)
      | Inr False \<Rightarrow>
     (case get_llm LLM load_ai_model of
        (Inl e, LLM') \<Rightarrow> (Inl e, LLM')
      | (Inr m, LLM') \<Rightarrow>
     (case generate_general_suggestion (case prefix of JStr p \<Rightarrow> p | _ \<Rightarrow> lit '''')
             clipboard history m of
        Inl e \<Rightarrow> (Inl e, LLM')
      | Inr suggestion \<Rightarrow>
          (json_response 200 (JObj [(lit ''suggestion'', JStr suggestion)]), LLM'))))))))))"

section \<open>zsh\_ai\_complete.py: the clipboard\<close>

text \<open>
  \<open>get_clipboard_content()\<close>. \<open>paste\<close> is what \<open>pyperclip.paste()\<close> gives (or
  raises), \<open>exists\<close> is \<open>os.path.exists\<close> on the file system of the moment. The
  clause is a bare \<open>except\<close>, which catches every exception.
\<close>

definition get_clipboard_content :: "error + pystr \<Rightarrow> (pystr \<Rightarrow> bool) \<Rightarrow> json" where
  "get_clipboard_content paste exists =
     (case paste of
        Inl e \<Rightarrow> clipboard_context (lit ''text'') (lit '''')
      | Inr raw \<Rightarrow>
          (let content = py_strip raw in
           if content \<noteq> lit '''' \<and> (py_in (lit ''.'') content \<and> \<not> exists content) then
             clipboard_context (lit ''ip'') content
           else if content \<noteq> lit '''' \<and>
                   (startswith content (lit ''/'') \<or> startswith content (lit ''~'')) then
             clipboard_context (lit ''path'') content
           else clipboard_context (lit ''text'') content))"

section \<open>zsh\_ai\_server.py: status, stop and start\<close>

text \<open>
  What the operating system answers. \<open>kill0 p\<close>: \<open>os.kill(p, 0)\<close> does not
  raise. \<open>check_server_alive\<close>: the function of that name returns \<open>True\<close>.
\<close>

record probe =
  kill0 :: "int \<Rightarrow> bool"
  check_server_alive :: bool

text \<open>
  \<open>read_pid\<close>, \<open>read_meta\<close>, \<open>lsof_listen_pid\<close>, \<open>find_server_pids\<close>: what the
  functions \<open>_read_pid()\<close>, \<open>_read_meta()\<close>, \<open>_lsof_listen_pid(port)\<close> and
  \<open>find_server_pids()\<close> return. \<open>lsof_pid2\<close>: the value of \<open>pid2\<close> in the status
  branch (the first line of the \<open>lsof\<close> output as an integer, \<open>None\<close> when the
  output is empty or anything fails).
\<close>

record os_env = probe +
  read_pid :: "int option"
  read_meta :: json
  lsof_pid2 :: "int option"
  lsof_listen_pid :: "int list"
  find_server_pids :: "int list"

text \<open>
  \<open>_pid_running(pid)\<close>: \<open>True\<close> in Python is the integer 1; \<open>os.kill\<close> raises
  TypeError on a string, a list or a dict, which the function turns into
  \<open>False\<close>.
\<close>

fun pid_running :: "'a probe_scheme \<Rightarrow> json \<Rightarrow> bool" where
  "pid_running env (JNum n) = (n \<noteq> 0 \<and> kill0 env n)"
| "pid_running env (JBool b) = (b \<and> kill0 env 1)"
| "pid_running env _ = False"

text \<open>
  What a command prints, by the f-string that prints it and the values shown
  in it: \<open>RUNNING pid host port\<close> is \<open>f"RUNNING {pid} {host}:{port}"\<close>,
  \<open>RUNNING_unknown host port\<close> is \<open>f"RUNNING ? {host}:{port}"\<close>, \<open>INFO_running\<close> is
  the line of the start branch that says the service already runs at
  \<open>host:port\<close>, \<open>ERROR_port_occupied\<close> the line that says the port is taken by
  something else.
\<close>

datatype printed =
    RUNNING json json json
  | RUNNING_unknown json json
  | STOPPED
  | STOPPED_WITH_ISSUE
  | INFO_running json json
  | ERROR_port_occupied json json

datatype signal = SIGTERM | SIGKILL

datatype event =
    Stdout printed
  | Stderr printed
  | Kill int signal
  | Remove_pid
  | Write_pid

datatype ending = Exit int | Raised error | Serve_forever

text \<open>The \<open>status\<close> branch of the main block.\<close>

definition main_status :: "os_env \<Rightarrow> pystr \<Rightarrow> int \<Rightarrow> event list \<times> ending" where
  "main_status env host port =
     (case (case read_pid env of
              None \<Rightarrow> None
            | Some pid \<Rightarrow> if pid \<noteq> 0 \<and> pid_running env (JNum pid) then Some pid else None) of
        Some pid \<Rightarrow> ([Stdout (RUNNING (JNum pid) (JStr host) (JNum port))], Exit 0)
      | None \<Rightarrow>
          if check_server_alive env then
            (case (case lsof_pid2 env of
                     None \<Rightarrow> None
                   | Some pid2 \<Rightarrow> if pid2 \<noteq> 0 then Some pid2 else None) of
               Some pid2 \<Rightarrow> ([Stdout (RUNNING (JNum pid2) (JStr host) (JNum port))], Exit 0)
             | None \<Rightarrow>
                 (case find_server_pids env of
                    p # _ \<Rightarrow> ([Stdout (RUNNING (JNum p) (JStr host) (JNum port))], Exit 0)
                  | [] \<Rightarrow> ([Stdout (RUNNING_unknown (JStr host) (JNum port))], Exit 0)))
          else
            (case py_get (read_meta env) (lit ''pid'') JNull of
               Inl e \<Rightarrow> ([], Raised e)
             | Inr mp \<Rightarrow>
                 if truthy mp \<and> pid_running env mp then
                   (case py_get (read_meta env) (lit ''host'') (JStr host) of
                      Inl e \<Rightarrow> ([], Raised e)
                    | Inr h \<Rightarrow>
                        (case py_get (read_meta env) (lit ''port'') (JNum port) of
                           Inl e \<Rightarrow> ([], Raised e)
                         | Inr q \<Rightarrow> ([Stdout (RUNNING mp h q)], Exit 0)))
                 else
                   (case find_server_pids env of
                      p # _ \<Rightarrow> ([Stdout (RUNNING (JNum p) (JStr host) (JNum port))], Exit 0)
                    | [] \<Rightarrow> ([Stdout STOPPED], Exit 1))))"









text \<open>
  The start of the server, lines 350 to 365. \<open>Bind_failed errno\<close>: the
  constructor of the server raised OSError with that \<open>errno\<close>.
\<close>

datatype bind_result = Bound | Bind_failed "int option"

definition main_serve :: "bind_result \<Rightarrow> 'a probe_scheme \<Rightarrow> pystr \<Rightarrow> int \<Rightarrow> event list \<times> ending" where
  "main_serve b env host port =
     (case b of
        Bind_failed errno \<Rightarrow>
          if errno = Some 48 \<or> errno = Some 98 then
            (if check_server_alive env then ([Stdout (INFO_running (JStr host) (JNum port))], Exit 0)
             else ([Stderr (ERROR_port_occupied (JStr host) (JNum port))], Exit 1))
          else ([], Raised OSError)
      | Bound \<Rightarrow> ([Write_pid], Serve_forever))"

section \<open>Literals\<close>

text \<open>
  Facts about the \<open>str\<close> of a literal: comparisons, prefixes and containment
  between literals are those of the literals' characters, and a literal can
  always be encoded.
\<close>

lemma lit_eq_iff [simp]: "lit a = lit b \<longleftrightarrow> a = b"
  by (simp add: lit_def inj_map_eq_map inj_on_def)

lemma lit_Nil [simp]: "lit [] = []"
  by (simp add: lit_def)

lemma lit_eq_Nil [simp]: "lit a = [] \<longleftrightarrow> a = []" "[] = lit a \<longleftrightarrow> a = []"
  by (auto simp: lit_def)

lemma lit_Cons: "lit (c # cs) = of_char c # lit cs"
  by (simp add: lit_def)

lemma lit_append: "lit (a @ b) = lit a @ lit b"
  by (simp add: lit_def)

lemma length_lit [simp]: "length (lit a) = length a"
  by (simp add: lit_def)

lemma take_lit: "take n (lit a) = lit (take n a)"
  by (simp add: lit_def take_map)

lemma startswith_lit [simp]: "startswith (lit a) (lit b) \<longleftrightarrow> startswith a b"
  by (simp add: startswith_def take_lit)

lemma startswith_append [simp]: "startswith (p @ s) p"
  by (simp add: startswith_def)

lemma startswith_Nil [simp]: "startswith s []"
  by (simp add: startswith_def)

lemma py_in_lit [simp]: "py_in (lit a) (lit b) \<longleftrightarrow> py_in a b"
proof (induction b)
  case Nil
  show ?case by simp
next
  case (Cons c cs)
  have "startswith (lit (c # cs)) (lit a) \<longleftrightarrow> startswith (c # cs) a"
    by (rule startswith_lit)
  then show ?case
    using Cons by (simp add: lit_Cons)
qed

lemma utf8_encodable_lit [simp]: "utf8_encodable (lit s)"
proof -
  have "of_char c < (0xD800 :: nat)" for c :: char
    by (rule less_trans[OF String.nat_of_char_less_256]) simp
  then show ?thesis
    by (simp add: utf8_encodable_def lit_def list_all_iff)
qed

lemma utf8_encodable_Nil [simp]: "utf8_encodable []"
  by (simp add: utf8_encodable_def)

lemma utf8_encodable_append [simp]:
  "utf8_encodable (a @ b) \<longleftrightarrow> utf8_encodable a \<and> utf8_encodable b"
  by (simp add: utf8_encodable_def)

lemma dropWhile_hd: "xs \<noteq> [] \<Longrightarrow> \<not> P (hd xs) \<Longrightarrow> dropWhile P xs = xs"
  by (cases xs) simp_all

lemma strip_plain:
  assumes "s \<noteq> []" "\<not> py_isspace (hd s)" "\<not> py_isspace (last s)"
  shows "py_strip s = s"
proof -
  have a: "dropWhile py_isspace s = s"
    using assms(1,2) by (rule dropWhile_hd)
  have "dropWhile py_isspace (rev s) = rev s"
    using assms(1,3) by (intro dropWhile_hd) (simp_all add: hd_rev)
  then show ?thesis
    by (simp add: py_strip_def a)
qed

lemma py_strip_Nil [simp]: "py_strip [] = []"
  by (simp add: py_strip_def)

lemma py_strip_empty_iff: "py_strip s = [] \<longleftrightarrow> (\<forall>c \<in> set s. py_isspace c)"
proof
  assume e: "py_strip s = []"
  then have "\<forall>c \<in> set (dropWhile py_isspace s). py_isspace c"
    by (simp add: py_strip_def)
  moreover have "dropWhile py_isspace s \<noteq> [] \<Longrightarrow> \<not> py_isspace (hd (dropWhile py_isspace s))"
    by (rule hd_dropWhile)
  ultimately have "dropWhile py_isspace s = []"
    by (cases "dropWhile py_isspace s") auto
  then show "\<forall>c \<in> set s. py_isspace c"
    by simp
next
  assume "\<forall>c \<in> set s. py_isspace c"
  then show "py_strip s = []"
    by (auto simp: py_strip_def dest: set_dropWhileD)
qed

section \<open>The fallback\<close>

text \<open>
  On a clipboard of two strings \<open>custom_fallback\<close> and \<open>_clip_usable\<close> never
  raise; the two lemmas give their values in closed form.
\<close>

lemma custom_fallback_exact:
  assumes "map_of BASE_FALLBACK prefix = Some base"
  shows "custom_fallback prefix (clipboard_context t v) =
     Inr (if prefix = lit ''ssh'' \<and> t = lit ''ip'' \<and> v \<noteq> lit '''' then lit ''ssh root@'' @ v
          else if prefix = lit ''cd'' \<and> t = lit ''path'' \<and> v \<noteq> lit '''' then lit ''cd '' @ v
          else if prefix = lit ''git'' \<and> v \<noteq> lit '''' then lit ''git add '' @ v
          else base)"
  using assms by (simp add: custom_fallback_def clipboard_context_def)

lemma clip_usable_exact:
  "clip_usable prefix (clipboard_context t v) =
     Inr (if prefix = lit ''ssh'' then
            t = lit ''ip'' \<and> \<not> py_in (lit ''/'') (py_strip v) \<and> \<not> py_in (lit '' '') (py_strip v)
          else if prefix = lit ''cd'' then t = lit ''path'' \<and> py_strip v \<noteq> lit ''''
          else if prefix = lit ''git'' then t = lit ''text'' \<and> py_strip v \<noteq> lit ''''
          else False)"
  by (simp add: clip_usable_def clipboard_context_def Let_def)

lemma base_fallback_starts:
  assumes "map_of BASE_FALLBACK prefix = Some base"
  shows "base \<noteq> lit '''' \<and> startswith base prefix"
proof -
  have "(prefix, base) \<in> set BASE_FALLBACK"
    using assms by (rule map_of_SomeD)
  then show ?thesis
    unfolding BASE_FALLBACK_def by (auto simp: startswith_def take_lit)
qed

lemma template_starts:
  "startswith (lit ''ssh root@'' @ v) (lit ''ssh'')"
  "startswith (lit ''cd '' @ v) (lit ''cd'')"
  "startswith (lit ''git add '' @ v) (lit ''git'')"
  by (simp_all add: startswith_def lit_def)

text \<open>
  C9. For every supported prefix and every clipboard context, the fallback is
  defined, is not empty and starts with the prefix; so does the static default
  of the prefix. (The fallback does not depend on the history.)
\<close>

theorem fallback_starts_with_prefix:
  assumes "map_of BASE_FALLBACK prefix = Some base"
  shows "base \<noteq> lit '''' \<and> startswith base prefix
       \<and> (\<exists>fb. custom_fallback prefix (clipboard_context t v) = Inr fb
                \<and> fb \<noteq> lit '''' \<and> startswith fb prefix)"
  using base_fallback_starts[OF assms] template_starts[of v]
  unfolding custom_fallback_exact[OF assms] by simp

theorem fallback_starts_with_prefix_witness:
  "map_of BASE_FALLBACK (lit ''git'') = Some (lit ''git status'')
   \<and> custom_fallback (lit ''git'') (clipboard_context (lit ''text'') (lit ''README''))
       = Inr (lit ''git add README'')
   \<and> startswith (lit ''git add README'') (lit ''git'')"
proof -
  have b: "map_of BASE_FALLBACK (lit ''git'') = Some (lit ''git status'')"
    by (simp add: BASE_FALLBACK_def)
  have c: "custom_fallback (lit ''git'') (clipboard_context (lit ''text'') (lit ''README''))
             = Inr (lit ''git add README'')"
    by (simp add: custom_fallback_exact[OF b] lit_append[symmetric])
  show ?thesis
    using b c fallback_starts_with_prefix[OF b, of "lit ''text''" "lit ''README''"]
    by simp
qed

text \<open>
  C2, as stated, fails in both directions. An ssh clipboard of kind ip with the
  empty value satisfies the usability rule (it holds neither a slash nor a
  space), and the fallback is the static default, not \<open>ssh root@\<close> followed by
  the value. A git clipboard of kind ip does not satisfy the rule, and the
  fallback is \<open>git add \<close> followed by the value, not the static default.
\<close>

theorem fallback_selection_counterexample:
  "clip_usable (lit ''ssh'') (clipboard_context (lit ''ip'') (lit '''')) = Inr True
   \<and> custom_fallback (lit ''ssh'') (clipboard_context (lit ''ip'') (lit ''''))
       = Inr (lit ''ssh root@192.168.1.1'')
   \<and> lit ''ssh root@192.168.1.1'' \<noteq> lit ''ssh root@'' @ lit ''''
   \<and> clip_usable (lit ''git'') (clipboard_context (lit ''ip'') (lit ''main.py'')) = Inr False
   \<and> custom_fallback (lit ''git'') (clipboard_context (lit ''ip'') (lit ''main.py''))
       = Inr (lit ''git add main.py'')
   \<and> map_of BASE_FALLBACK (lit ''git'') = Some (lit ''git status'')"
proof -
  have b: "map_of BASE_FALLBACK (lit ''ssh'') = Some (lit ''ssh root@192.168.1.1'')"
    by (simp add: BASE_FALLBACK_def)
  have g: "map_of BASE_FALLBACK (lit ''git'') = Some (lit ''git status'')"
    by (simp add: BASE_FALLBACK_def)
  have u: "clip_usable (lit ''ssh'') (clipboard_context (lit ''ip'') (lit '''')) = Inr True"
    by (simp add: clip_usable_exact)
  have n: "clip_usable (lit ''git'') (clipboard_context (lit ''ip'') (lit ''main.py'')) = Inr False"
    by (simp add: clip_usable_exact)
  show ?thesis
    using u n g
    by (simp add: custom_fallback_exact[OF b] custom_fallback_exact[OF g] lit_append[symmetric])
qed

text \<open>
  C2, amended. For every supported prefix and clipboard context: when the
  clipboard is usable for the prefix and its value is not empty, the fallback
  is the template of the prefix (\<open>ssh root@\<close>, \<open>cd \<close>, \<open>git add \<close>) followed by
  the value; when the value is empty, or the prefix is none of ssh, cd and git,
  or the prefix is ssh and the kind is not ip, or the prefix is cd and the kind
  is not path, the fallback is the static default of the prefix.
\<close>

theorem fallback_selection:
  assumes "map_of BASE_FALLBACK prefix = Some base"
  shows "(clip_usable prefix (clipboard_context t v) = Inr True \<and> v \<noteq> lit '''' \<longrightarrow>
            custom_fallback prefix (clipboard_context t v) =
              Inr ((if prefix = lit ''ssh'' then lit ''ssh root@''
                    else if prefix = lit ''cd'' then lit ''cd '' else lit ''git add '') @ v))
       \<and> (v = lit '''' \<or> prefix \<notin> {lit ''ssh'', lit ''cd'', lit ''git''}
            \<or> (prefix = lit ''ssh'' \<and> t \<noteq> lit ''ip'') \<or> (prefix = lit ''cd'' \<and> t \<noteq> lit ''path'') \<longrightarrow>
            custom_fallback prefix (clipboard_context t v) = Inr base)"
  unfolding custom_fallback_exact[OF assms] clip_usable_exact
  by (auto split: if_splits)

theorem fallback_selection_witness:
  "map_of BASE_FALLBACK (lit ''cd'') = Some (lit ''cd ~'')
   \<and> clip_usable (lit ''cd'') (clipboard_context (lit ''path'') (lit ''/tmp'')) = Inr True
   \<and> custom_fallback (lit ''cd'') (clipboard_context (lit ''path'') (lit ''/tmp''))
       = Inr (lit ''cd /tmp'')
   \<and> custom_fallback (lit ''cd'') (clipboard_context (lit ''ip'') (lit ''1.2.3.4''))
       = Inr (lit ''cd ~'')"
proof -
  have b: "map_of BASE_FALLBACK (lit ''cd'') = Some (lit ''cd ~'')"
    by (simp add: BASE_FALLBACK_def)
  have s: "py_strip (lit ''/tmp'') = lit ''/tmp''"
    by (rule strip_plain) (simp_all add: lit_def py_isspace_def)
  have u: "clip_usable (lit ''cd'') (clipboard_context (lit ''path'') (lit ''/tmp'')) = Inr True"
    by (simp add: clip_usable_exact s)
  show ?thesis
    using fallback_selection[OF b, of "lit ''path''" "lit ''/tmp''"]
          fallback_selection[OF b, of "lit ''ip''" "lit ''1.2.3.4''"] b u
    by (simp add: lit_append[symmetric])
qed

section \<open>The gateway\<close>









section \<open>The HTTP handler\<close>

lemma json_response_const [simp]:
  "json_response c (JObj [(lit k, JStr (lit v))]) = Inr (c, JObj [(lit k, JStr (lit v))])"
  by (simp add: json_response_def)

lemma json_response_suggestion:
  "json_response 200 (JObj [(lit ''suggestion'', JStr s)]) =
     (if utf8_encodable s then Inr (200, JObj [(lit ''suggestion'', JStr s)])
      else Inl UnicodeEncodeError)"
  by (simp add: json_response_def)

lemma py_get_obj:
  "py_get (JObj kvs) k d = Inr (case map_of kvs k of None \<Rightarrow> d | Some x \<Rightarrow> x)"
  by (simp split: option.splits)

lemma base_fallback_Nil: "map_of BASE_FALLBACK [] = None"
  by (simp add: BASE_FALLBACK_def)

lemma bad_prefix_exact:
  "bad_prefix pv =
     (case pv of
        JStr p \<Rightarrow> Inr (map_of BASE_FALLBACK p = None)
      | JArr xs \<Rightarrow> if xs = [] then Inr True else Inl TypeError
      | JObj ys \<Rightarrow> if ys = [] then Inr True else Inl TypeError
      | _ \<Rightarrow> Inr True)"
  by (cases pv) (auto simp: bad_prefix_def base_fallback_Nil)

lemma py_int_zero: "py_int ''0'' = Some 0"
  by (simp add: py_int_def int_strip_def int_isspace_def py_nat_def is_digit_def digit_val_def)

lemma do_POST_not_found:
  "path req \<noteq> ''/complete'' \<Longrightarrow>
     fst (do_POST loads load LLM req) = Inr (404, JObj [(lit ''error'', JStr (lit ''not_found''))])"
  by (simp add: do_POST_def)

lemma do_POST_bad_length:
  assumes "path req = ''/complete''"
      and "py_int (case content_length req of None \<Rightarrow> ''0'' | Some h \<Rightarrow> h) = None"
  shows "fst (do_POST loads load LLM req) = Inl ValueError"
  using assms by (simp add: do_POST_def)

lemma do_POST_bad_json:
  assumes "path req = ''/complete''"
      and "py_int (case content_length req of None \<Rightarrow> ''0'' | Some h \<Rightarrow> h) = Some len"
      and "loads (if len > 0 then take (nat len) (rfile req) else ''{}'') = None"
  shows "fst (do_POST loads load LLM req) = Inr (400, JObj [(lit ''error'', JStr (lit ''bad_json''))])"
  using assms by (simp add: do_POST_def Let_def)

text \<open>A body that parses to something else than an object has no \<open>get\<close>.\<close>

lemma do_POST_not_object:
  assumes "path req = ''/complete''"
      and "py_int (case content_length req of None \<Rightarrow> ''0'' | Some h \<Rightarrow> h) = Some len"
      and "loads (if len > 0 then take (nat len) (rfile req) else ''{}'') = Some r"
      and "\<nexists>kvs. r = JObj kvs"
  shows "fst (do_POST loads load LLM req) = Inl AttributeError"
  using assms by (cases r) (simp_all add: do_POST_def Let_def)

text \<open>
  A body that parses to an object: the prefix is tested, the model is fetched,
  the suggestion is computed and encoded.
\<close>

lemma do_POST_object:
  assumes "path req = ''/complete''"
      and "py_int (case content_length req of None \<Rightarrow> ''0'' | Some h \<Rightarrow> h) = Some len"
      and "loads (if len > 0 then take (nat len) (rfile req) else ''{}'') = Some (JObj kvs)"
      and "pv = (case map_of kvs (lit ''prefix'') of None \<Rightarrow> JStr (lit '''') | Some x \<Rightarrow> x)"
      and "cb = (case map_of kvs (lit ''clipboard'') of
                   None \<Rightarrow> clipboard_context (lit ''text'') (lit '''') | Some x \<Rightarrow> x)"
      and "hi = (case map_of kvs (lit ''history'') of None \<Rightarrow> JArr [] | Some x \<Rightarrow> x)"
  shows "fst (do_POST loads load LLM req) =
     (case bad_prefix pv of
        Inl e \<Rightarrow> Inl e
      | Inr b \<Rightarrow>
          if b then Inr (400, JObj [(lit ''error'', JStr (lit ''bad_prefix''))])
          else
            (case fst (get_llm LLM load) of
               Inl e \<Rightarrow> Inl e
             | Inr m \<Rightarrow>
                 (case generate_general_suggestion (case pv of JStr p \<Rightarrow> p | _ \<Rightarrow> lit '''') cb hi m of
                    Inl e \<Rightarrow> Inl e
                  | Inr s \<Rightarrow>
                      if utf8_encodable s then Inr (200, JObj [(lit ''suggestion'', JStr s)])
                      else Inl UnicodeEncodeError)))"
proof -
  have g: "py_get (JObj kvs) (lit ''prefix'') (JStr (lit '''')) = Inr pv"
          "py_get (JObj kvs) (lit ''clipboard'') (clipboard_context (lit ''text'') (lit '''')) = Inr cb"
          "py_get (JObj kvs) (lit ''history'') (JArr []) = Inr hi"
    unfolding assms(4,5,6) by (rule py_get_obj)+
  have d: "do_POST loads load LLM req =
     (case bad_prefix pv of
        Inl e \<Rightarrow> (Inl e, LLM)
      | Inr True \<Rightarrow> (json_response 400 (JObj [(lit ''error'', JStr (lit ''bad_prefix''))]), LLM)
      | Inr False \<Rightarrow>
     (case get_llm LLM load of
        (Inl e, LLM') \<Rightarrow> (Inl e, LLM')
      | (Inr m, LLM') \<Rightarrow>
     (case generate_general_suggestion (case pv of JStr p \<Rightarrow> p | _ \<Rightarrow> lit '''') cb hi m of
        Inl e \<Rightarrow> (Inl e, LLM')
      | Inr suggestion \<Rightarrow>
          (json_response 200 (JObj [(lit ''suggestion'', JStr suggestion)]), LLM'))))"
    unfolding do_POST_def Let_def
    by (simp only: assms(1,2,3) g sum.case option.case if_False refl not_True_eq_False)
  show ?thesis
  proof (cases "bad_prefix pv")
    case (Inl e)
    then show ?thesis unfolding d by simp
  next
    case (Inr b)
    show ?thesis
    proof (cases b)
      case True
      then show ?thesis unfolding d using Inr by simp
    next
      case False
      obtain r L where gl: "get_llm LLM load = (r, L)"
        by (cases "get_llm LLM load")
      show ?thesis
      proof (cases r)
        case (Inl e)
        then show ?thesis unfolding d using Inr False gl by simp
      next
        case m: (Inr m)
        show ?thesis
          unfolding d using Inr False gl m
          by (cases "generate_general_suggestion (case pv of JStr p \<Rightarrow> p | _ \<Rightarrow> lit '''') cb hi m")
             (simp_all add: json_response_suggestion)
      qed
    qed
  qed
qed

lemma bad_prefix_True_iff:
  "bad_prefix pv = Inr True \<longleftrightarrow>
     pv = JNull \<or> (\<exists>b. pv = JBool b) \<or> (\<exists>n. pv = JNum n) \<or> pv = JArr [] \<or> pv = JObj []
     \<or> (\<exists>p. pv = JStr p \<and> map_of BASE_FALLBACK p = None)"
  by (cases pv) (auto simp: bad_prefix_exact)

lemma bad_prefix_False_iff:
  "bad_prefix pv = Inr False \<longleftrightarrow> (\<exists>p. pv = JStr p \<and> map_of BASE_FALLBACK p \<noteq> None)"
  by (cases pv) (auto simp: bad_prefix_exact)

text \<open>The responses to a body that parses to an object.\<close>

lemma do_POST_object_responses:
  assumes "path req = ''/complete''"
      and "py_int (case content_length req of None \<Rightarrow> ''0'' | Some h \<Rightarrow> h) = Some len"
      and "loads (if len > 0 then take (nat len) (rfile req) else ''{}'') = Some (JObj kvs)"
  shows "fst (do_POST loads load LLM req) = Inr x \<longleftrightarrow>
     (x = (400, JObj [(lit ''error'', JStr (lit ''bad_prefix''))])
      \<and> (map_of kvs (lit ''prefix'') = None
         \<or> map_of kvs (lit ''prefix'') = Some JNull
         \<or> (\<exists>b. map_of kvs (lit ''prefix'') = Some (JBool b))
         \<or> (\<exists>n. map_of kvs (lit ''prefix'') = Some (JNum n))
         \<or> map_of kvs (lit ''prefix'') = Some (JArr [])
         \<or> map_of kvs (lit ''prefix'') = Some (JObj [])
         \<or> (\<exists>p. map_of kvs (lit ''prefix'') = Some (JStr p) \<and> map_of BASE_FALLBACK p = None)))
     \<or> (\<exists>p m s. x = (200, JObj [(lit ''suggestion'', JStr s)])
          \<and> map_of kvs (lit ''prefix'') = Some (JStr p) \<and> map_of BASE_FALLBACK p \<noteq> None
          \<and> fst (get_llm LLM load) = Inr m
          \<and> generate_general_suggestion p
               (case map_of kvs (lit ''clipboard'') of
                  None \<Rightarrow> clipboard_context (lit ''text'') (lit '''') | Some c \<Rightarrow> c)
               (case map_of kvs (lit ''history'') of None \<Rightarrow> JArr [] | Some h \<Rightarrow> h) m = Inr s
          \<and> utf8_encodable s)"
proof -
  define pv where "pv = (case map_of kvs (lit ''prefix'') of None \<Rightarrow> JStr (lit '''') | Some x \<Rightarrow> x)"
  define cb where "cb = (case map_of kvs (lit ''clipboard'') of
                   None \<Rightarrow> clipboard_context (lit ''text'') (lit '''') | Some x \<Rightarrow> x)"
  define hi where "hi = (case map_of kvs (lit ''history'') of None \<Rightarrow> JArr [] | Some x \<Rightarrow> x)"
  note d = do_POST_object[where loads = loads and req = req and load = load and LLM = LLM,
                          OF assms pv_def cb_def hi_def]
  have T: "bad_prefix pv = Inr True \<longleftrightarrow>
         (map_of kvs (lit ''prefix'') = None
         \<or> map_of kvs (lit ''prefix'') = Some JNull
         \<or> (\<exists>b. map_of kvs (lit ''prefix'') = Some (JBool b))
         \<or> (\<exists>n. map_of kvs (lit ''prefix'') = Some (JNum n))
         \<or> map_of kvs (lit ''prefix'') = Some (JArr [])
         \<or> map_of kvs (lit ''prefix'') = Some (JObj [])
         \<or> (\<exists>p. map_of kvs (lit ''prefix'') = Some (JStr p) \<and> map_of BASE_FALLBACK p = None))"
    unfolding bad_prefix_True_iff pv_def
    by (cases "map_of kvs (lit ''prefix'')") (auto simp: base_fallback_Nil)
  have F: "bad_prefix pv = Inr False \<longleftrightarrow>
         (\<exists>p. map_of kvs (lit ''prefix'') = Some (JStr p) \<and> map_of BASE_FALLBACK p \<noteq> None)"
    unfolding bad_prefix_False_iff pv_def
    by (cases "map_of kvs (lit ''prefix'')") (auto simp: base_fallback_Nil)
  have F': "pv = JStr p" if "map_of kvs (lit ''prefix'') = Some (JStr p)" for p
    using that by (simp add: pv_def)
  show ?thesis
  proof (cases "bad_prefix pv")
    case (Inl e)
    then have "fst (do_POST loads load LLM req) = Inl e"
      unfolding d by simp
    moreover have "bad_prefix pv \<noteq> Inr True" "bad_prefix pv \<noteq> Inr False"
      using Inl by simp_all
    ultimately show ?thesis
      unfolding T F by auto
  next
    case (Inr b)
    show ?thesis
    proof (cases b)
      case True
      then have "fst (do_POST loads load LLM req)
                   = Inr (400, JObj [(lit ''error'', JStr (lit ''bad_prefix''))])"
        unfolding d using Inr by simp
      moreover have "bad_prefix pv = Inr True" "bad_prefix pv \<noteq> Inr False"
        using Inr True by simp_all
      ultimately show ?thesis
        unfolding T F by auto
    next
      case False
      then have bf: "bad_prefix pv = Inr False" and bt: "bad_prefix pv \<noteq> Inr True"
        using Inr by simp_all
      then obtain p where p: "map_of kvs (lit ''prefix'') = Some (JStr p)"
          and k: "map_of BASE_FALLBACK p \<noteq> None"
        unfolding F by blast
      have pv: "pv = JStr p"
        using p by (rule F')
      have pp: "(case pv of JStr p \<Rightarrow> p | _ \<Rightarrow> lit '''') = p"
        by (simp add: pv)
      have e: "fst (do_POST loads load LLM req) =
            (case fst (get_llm LLM load) of
               Inl e \<Rightarrow> Inl e
             | Inr m \<Rightarrow>
                 (case generate_general_suggestion p cb hi m of
                    Inl e \<Rightarrow> Inl e
                  | Inr s \<Rightarrow>
                      if utf8_encodable s then Inr (200, JObj [(lit ''suggestion'', JStr s)])
                      else Inl UnicodeEncodeError))"
        unfolding d pp using bf by simp
      have nb: "\<not> (map_of kvs (lit ''prefix'') = None
         \<or> map_of kvs (lit ''prefix'') = Some JNull
         \<or> (\<exists>b. map_of kvs (lit ''prefix'') = Some (JBool b))
         \<or> (\<exists>n. map_of kvs (lit ''prefix'') = Some (JNum n))
         \<or> map_of kvs (lit ''prefix'') = Some (JArr [])
         \<or> map_of kvs (lit ''prefix'') = Some (JObj [])
         \<or> (\<exists>p. map_of kvs (lit ''prefix'') = Some (JStr p) \<and> map_of BASE_FALLBACK p = None))"
        using bt unfolding T .
      have "fst (do_POST loads load LLM req) = Inr x \<longleftrightarrow>
              (\<exists>m s. x = (200, JObj [(lit ''suggestion'', JStr s)])
                 \<and> fst (get_llm LLM load) = Inr m
                 \<and> generate_general_suggestion p cb hi m = Inr s \<and> utf8_encodable s)"
        unfolding e by (auto split: sum.splits)
      then show ?thesis
        using nb p k unfolding cb_def hi_def by auto
    qed
  qed
qed

lemma do_POST_responses:
  assumes "path req = ''/complete''"
      and "py_int (case content_length req of None \<Rightarrow> ''0'' | Some h \<Rightarrow> h) = Some len"
      and "fst (do_POST loads load LLM req) = Inr x"
  shows "(x = (400, JObj [(lit ''error'', JStr (lit ''bad_json''))])
          \<and> loads (if len > 0 then take (nat len) (rfile req) else ''{}'') = None)
       \<or> (\<exists>kvs. loads (if len > 0 then take (nat len) (rfile req) else ''{}'') = Some (JObj kvs))"
proof (cases "loads (if len > 0 then take (nat len) (rfile req) else ''{}'')")
  case None
  then show ?thesis
    using do_POST_bad_json[where loads = loads and req = req, OF assms(1,2) None, of load LLM]
          assms(3) by simp
next
  case (Some r)
  have "\<exists>kvs. r = JObj kvs"
  proof (rule ccontr)
    assume "\<nexists>kvs. r = JObj kvs"
    then have "fst (do_POST loads load LLM req) = Inl AttributeError"
      using do_POST_not_object[where loads = loads and req = req, OF assms(1,2) Some] by blast
    then show False using assms(3) by simp
  qed
  then show ?thesis using Some by auto
qed

lemma do_POST_bad_json_iff:
  assumes "path req = ''/complete''"
      and "py_int (case content_length req of None \<Rightarrow> ''0'' | Some h \<Rightarrow> h) = Some len"
  shows "fst (do_POST loads load LLM req) = Inr (400, JObj [(lit ''error'', JStr (lit ''bad_json''))])
         \<longleftrightarrow> loads (if len > 0 then take (nat len) (rfile req) else ''{}'') = None"
proof
  assume a: "fst (do_POST loads load LLM req) = Inr (400, JObj [(lit ''error'', JStr (lit ''bad_json''))])"
  show "loads (if len > 0 then take (nat len) (rfile req) else ''{}'') = None"
  proof (rule ccontr)
    assume "loads (if len > 0 then take (nat len) (rfile req) else ''{}'') \<noteq> None"
    then obtain kvs where o: "loads (if len > 0 then take (nat len) (rfile req) else ''{}'') = Some (JObj kvs)"
      using do_POST_responses[where loads = loads and req = req, OF assms a] by auto
    show False
      using a unfolding do_POST_object_responses[where loads = loads and req = req, OF assms o]
      by simp
  qed
next
  assume "loads (if len > 0 then take (nat len) (rfile req) else ''{}'') = None"
  then show "fst (do_POST loads load LLM req) = Inr (400, JObj [(lit ''error'', JStr (lit ''bad_json''))])"
    using assms by (simp add: do_POST_bad_json)
qed

text \<open>The response is \<open>bad_json\<close> only when the body that was parsed did not parse.\<close>

lemma do_POST_bad_json_only:
  assumes "fst (do_POST loads load LLM req) = Inr (400, JObj [(lit ''error'', JStr (lit ''bad_json''))])"
  shows "path req = ''/complete'' \<and>
         (\<exists>len. py_int (case content_length req of None \<Rightarrow> ''0'' | Some h \<Rightarrow> h) = Some len
            \<and> loads (if len > 0 then take (nat len) (rfile req) else ''{}'') = None)"
proof -
  have p: "path req = ''/complete''"
  proof (rule ccontr)
    assume "path req \<noteq> ''/complete''"
    then show False using assms by (simp add: do_POST_not_found)
  qed
  obtain len where l: "py_int (case content_length req of None \<Rightarrow> ''0'' | Some h \<Rightarrow> h) = Some len"
    using assms do_POST_bad_length[OF p, of loads load LLM]
    by (cases "py_int (case content_length req of None \<Rightarrow> ''0'' | Some h \<Rightarrow> h)") auto
  show ?thesis
    using p l assms do_POST_bad_json_iff[where loads = loads and req = req, OF p l] by blast
qed

text \<open>
  C10. A POST to \<open>/complete\<close> with no \<open>Content-Length\<close> header, or with one that
  reads as 0, is answered 400 \<open>bad_prefix\<close>: the handler parses \<open>{}\<close> in place of
  the body (\<open>json.loads\<close> of which is the empty dict). The answer 400 \<open>bad_json\<close>
  is given only when the header declares a positive length and the bytes read
  for it do not parse.
\<close>

theorem empty_body_is_bad_prefix:
  assumes "path req = ''/complete''" and "loads ''{}'' = Some (JObj [])"
  shows "(content_length req = None \<or> (\<exists>h. content_length req = Some h \<and> py_int h = Some 0) \<longrightarrow>
            fst (do_POST loads load LLM req) = Inr (400, JObj [(lit ''error'', JStr (lit ''bad_prefix''))]))
       \<and> (fst (do_POST loads load LLM req) = Inr (400, JObj [(lit ''error'', JStr (lit ''bad_json''))]) \<longrightarrow>
            (\<exists>h len. content_length req = Some h \<and> py_int h = Some len \<and> len > 0
                \<and> loads (take (nat len) (rfile req)) = None))"
proof (intro conjI impI)
  assume "content_length req = None \<or> (\<exists>h. content_length req = Some h \<and> py_int h = Some 0)"
  then have l: "py_int (case content_length req of None \<Rightarrow> ''0'' | Some h \<Rightarrow> h) = Some 0"
    by (auto simp: py_int_zero)
  have o: "loads (if (0::int) > 0 then take (nat 0) (rfile req) else ''{}'') = Some (JObj [])"
    using assms(2) by simp
  show "fst (do_POST loads load LLM req) = Inr (400, JObj [(lit ''error'', JStr (lit ''bad_prefix''))])"
    unfolding do_POST_object_responses[where loads = loads and req = req, OF assms(1) l o]
    by simp
next
  assume "fst (do_POST loads load LLM req) = Inr (400, JObj [(lit ''error'', JStr (lit ''bad_json''))])"
  then obtain len where
    l: "py_int (case content_length req of None \<Rightarrow> ''0'' | Some h \<Rightarrow> h) = Some len" and
    n: "loads (if len > 0 then take (nat len) (rfile req) else ''{}'') = None"
    using do_POST_bad_json_only by blast
  have pos: "len > 0" using n assms(2) by (auto split: if_splits)
  then obtain h where "content_length req = Some h"
    using l by (cases "content_length req") (auto simp: py_int_zero)
  then show "\<exists>h len. content_length req = Some h \<and> py_int h = Some len \<and> len > 0
                \<and> loads (take (nat len) (rfile req)) = None"
    using l n pos by auto
qed

theorem empty_body_is_bad_prefix_witness:
  "(\<lambda>s. if s = ''{}'' then Some (JObj []) else None) ''{}'' = Some (JObj [])
   \<and> fst (do_POST (\<lambda>s. if s = ''{}'' then Some (JObj []) else None) (Inl SystemExit) None
             \<lparr>path = ''/complete'', content_length = None, rfile = ''''\<rparr>)
       = Inr (400, JObj [(lit ''error'', JStr (lit ''bad_prefix''))])
   \<and> fst (do_POST (\<lambda>s. if s = ''{}'' then Some (JObj []) else None) (Inl SystemExit) None
             \<lparr>path = ''/complete'', content_length = Some ''3'', rfile = ''{]}''\<rparr>)
       = Inr (400, JObj [(lit ''error'', JStr (lit ''bad_json''))])
   \<and> (\<exists>h len. content_length \<lparr>path = ''/complete'', content_length = Some ''3'', rfile = ''{]}''\<rparr> = Some h
         \<and> py_int h = Some len \<and> len > 0
         \<and> (\<lambda>s. if s = ''{}'' then Some (JObj []) else None)
              (take (nat len) (rfile \<lparr>path = ''/complete'', content_length = Some ''3'', rfile = ''{]}''\<rparr>)) = None)"
proof -
  let ?loads = "\<lambda>s. if s = ''{}'' then Some (JObj []) else None"
  let ?r0 = "\<lparr>path = ''/complete'', content_length = None, rfile = ''''\<rparr>"
  let ?r3 = "\<lparr>path = ''/complete'', content_length = Some ''3'', rfile = ''{]}''\<rparr>"
  have l3: "py_int ''3'' = Some 3"
    by (simp add: py_int_def int_strip_def int_isspace_def py_nat_def is_digit_def digit_val_def)
  have j: "fst (do_POST ?loads (Inl SystemExit) None ?r3)
             = Inr (400, JObj [(lit ''error'', JStr (lit ''bad_json''))])"
    by (simp add: do_POST_def l3)
  show ?thesis
    using empty_body_is_bad_prefix[of ?r0 ?loads "Inl SystemExit" None]
          empty_body_is_bad_prefix[of ?r3 ?loads "Inl SystemExit" None] j
    by simp
qed





section \<open>The clipboard\<close>

text \<open>
  C8, as stated, fails: the classification is not a function of the raw text
  alone. The same text \<open>notes.txt\<close> is of kind text when the file system says
  such a path exists and of kind ip when it says not.
\<close>

theorem classify_counterexample:
  "get_clipboard_content (Inr (lit ''notes.txt'')) (\<lambda>p. True)
     = clipboard_context (lit ''text'') (lit ''notes.txt'')
   \<and> get_clipboard_content (Inr (lit ''notes.txt'')) (\<lambda>p. False)
     = clipboard_context (lit ''ip'') (lit ''notes.txt'')
   \<and> clipboard_context (lit ''text'') (lit ''notes.txt'')
     \<noteq> clipboard_context (lit ''ip'') (lit ''notes.txt'')"
proof -
  have s: "py_strip (lit ''notes.txt'') = lit ''notes.txt''"
    by (rule strip_plain) (simp_all add: lit_def py_isspace_def)
  show ?thesis
    by (simp add: get_clipboard_content_def s startswith_def take_lit clipboard_context_def)
qed

text \<open>
  C8, amended. The classification always returns a value, and the value is a
  function of the raw text and of what the file system answers to the question
  whether a path exists. With \<open>c\<close> the raw text stripped of surrounding
  whitespace, the rules are, in this order: \<open>c\<close> empty (the raw text is empty
  or whitespace only) gives kind text with the empty value; \<open>c\<close> holds a dot
  and is not an existing path gives kind ip; \<open>c\<close> starts with a slash or a
  tilde gives kind path; anything else gives kind text; the value is \<open>c\<close>. A
  clipboard that cannot be read gives kind text with the empty value. So
  \<open>~/projects\<close> is of kind path, \<open>10.0.0.5\<close> of kind ip unless such a path
  exists, \<open>hello world\<close> of kind text.
\<close>

theorem classify_rules:
  "get_clipboard_content (Inr raw) exists =
     (let c = py_strip raw in
      if c = lit '''' then clipboard_context (lit ''text'') (lit '''')
      else if py_in (lit ''.'') c \<and> \<not> exists c then clipboard_context (lit ''ip'') c
      else if startswith c (lit ''/'') \<or> startswith c (lit ''~'') then clipboard_context (lit ''path'') c
      else clipboard_context (lit ''text'') c)
   \<and> ((\<forall>ch \<in> set raw. py_isspace ch) \<longrightarrow>
        get_clipboard_content (Inr raw) exists = clipboard_context (lit ''text'') (lit ''''))
   \<and> get_clipboard_content (Inl e) exists = clipboard_context (lit ''text'') (lit '''')
   \<and> get_clipboard_content (Inr (lit ''~/projects'')) exists
       = clipboard_context (lit ''path'') (lit ''~/projects'')
   \<and> get_clipboard_content (Inr (lit ''10.0.0.5'')) exists =
       (if exists (lit ''10.0.0.5'') then clipboard_context (lit ''text'') (lit ''10.0.0.5'')
        else clipboard_context (lit ''ip'') (lit ''10.0.0.5''))
   \<and> get_clipboard_content (Inr (lit ''hello world'')) exists
       = clipboard_context (lit ''text'') (lit ''hello world'')"
proof -
  have s: "py_strip (lit ''~/projects'') = lit ''~/projects''"
          "py_strip (lit ''10.0.0.5'') = lit ''10.0.0.5''"
          "py_strip (lit ''hello world'') = lit ''hello world''"
    by (rule strip_plain; simp add: lit_def py_isspace_def)+
  have 1: "get_clipboard_content (Inr raw) exists =
     (let c = py_strip raw in
      if c = lit '''' then clipboard_context (lit ''text'') (lit '''')
      else if py_in (lit ''.'') c \<and> \<not> exists c then clipboard_context (lit ''ip'') c
      else if startswith c (lit ''/'') \<or> startswith c (lit ''~'') then clipboard_context (lit ''path'') c
      else clipboard_context (lit ''text'') c)"
    by (simp add: get_clipboard_content_def Let_def)
  have 2: "get_clipboard_content (Inl e) exists = clipboard_context (lit ''text'') (lit '''')"
    by (simp add: get_clipboard_content_def)
  have 3: "get_clipboard_content (Inr (lit ''~/projects'')) exists
             = clipboard_context (lit ''path'') (lit ''~/projects'')"
    by (simp add: get_clipboard_content_def s startswith_def take_lit)
  have 4: "get_clipboard_content (Inr (lit ''10.0.0.5'')) exists =
       (if exists (lit ''10.0.0.5'') then clipboard_context (lit ''text'') (lit ''10.0.0.5'')
        else clipboard_context (lit ''ip'') (lit ''10.0.0.5''))"
    by (simp add: get_clipboard_content_def s startswith_def take_lit)
  have 5: "get_clipboard_content (Inr (lit ''hello world'')) exists
             = clipboard_context (lit ''text'') (lit ''hello world'')"
    by (simp add: get_clipboard_content_def s startswith_def take_lit)
  have 6: "(\<forall>ch \<in> set raw. py_isspace ch) \<longrightarrow>
        get_clipboard_content (Inr raw) exists = clipboard_context (lit ''text'') (lit '''')"
    by (simp add: get_clipboard_content_def Let_def py_strip_empty_iff[symmetric])
  show ?thesis using 1 2 3 4 5 6 by blast
qed

theorem classify_rules_witness:
  "py_isspace 0x20 \<and> py_isspace 0x09
   \<and> get_clipboard_content (Inr [0x20, 0x09]) (\<lambda>p. False)
       = clipboard_context (lit ''text'') (lit '''')
   \<and> get_clipboard_content (Inr (lit ''10.0.0.5'')) (\<lambda>p. False)
       = clipboard_context (lit ''ip'') (lit ''10.0.0.5'')"
proof -
  have w: "\<forall>ch \<in> set [0x20, 0x09]. py_isspace ch"
    by (simp add: py_isspace_def)
  have "get_clipboard_content (Inr [0x20, 0x09]) (\<lambda>p. False)
          = clipboard_context (lit ''text'') (lit '''')"
       "get_clipboard_content (Inr (lit ''10.0.0.5'')) (\<lambda>p. False)
          = clipboard_context (lit ''ip'') (lit ''10.0.0.5'')"
    using w classify_rules[of "[0x20, 0x09]" "\<lambda>p. False"] by (blast, auto)
  then show ?thesis using w by simp
qed

section \<open>Start, status and stop\<close>

text \<open>
  C6. When the server cannot bind because the address is in use (errno 48 or
  98), the start probes \<open>/health\<close>: if this service answers, it prints that the
  service already runs and exits with 0; if not, it prints the error of a port
  taken by something else, on the error stream, and exits with 1. It sends no
  signal on either way.
\<close>

theorem start_on_occupied_port:
  assumes "errno = Some 48 \<or> errno = Some 98"
  shows "main_serve (Bind_failed errno) env host port =
           (if check_server_alive env
            then ([Stdout (INFO_running (JStr host) (JNum port))], Exit 0)
            else ([Stderr (ERROR_port_occupied (JStr host) (JNum port))], Exit 1))
         \<and> (\<forall>p sg. Kill p sg \<notin> set (fst (main_serve (Bind_failed errno) env host port)))"
  using assms by (auto simp: main_serve_def)

theorem start_on_occupied_port_witness:
  "main_serve (Bind_failed (Some 98)) \<lparr>kill0 = (\<lambda>p. False), check_server_alive = True\<rparr>
       (lit ''127.0.0.1'') 8765
     = ([Stdout (INFO_running (JStr (lit ''127.0.0.1'')) (JNum 8765))], Exit 0)
   \<and> main_serve (Bind_failed (Some 48)) \<lparr>kill0 = (\<lambda>p. False), check_server_alive = False\<rparr>
       (lit ''127.0.0.1'') 8765
     = ([Stderr (ERROR_port_occupied (JStr (lit ''127.0.0.1'')) (JNum 8765))], Exit 1)"
  using start_on_occupied_port[of "Some 98" "\<lparr>kill0 = (\<lambda>p. False), check_server_alive = True\<rparr>"
          "lit ''127.0.0.1''" 8765]
        start_on_occupied_port[of "Some 48" "\<lparr>kill0 = (\<lambda>p. False), check_server_alive = False\<rparr>"
          "lit ''127.0.0.1''" 8765]
  by simp

text \<open>
  C7, as stated, fails: when \<open>/health\<close> answers and no pid can be found (no pid
  record, no listener reported, no process in the table), the command prints
  \<open>RUNNING ? host:port\<close>, which reports no pid.
\<close>

theorem status_counterexample:
  "main_status \<lparr>kill0 = (\<lambda>p. False), check_server_alive = True, read_pid = None,
                 read_meta = JObj [], lsof_pid2 = None, lsof_listen_pid = [],
                 find_server_pids = []\<rparr> (lit ''127.0.0.1'') 8765
     = ([Stdout (RUNNING_unknown (JStr (lit ''127.0.0.1'')) (JNum 8765))], Exit 0)"
  by (simp add: main_status_def)

text \<open>
  C7, amended. With a meta record that is a dict, the status command decides in
  this order, the first success winning: the pid of the pid record answers the
  signal probe, and that pid is reported; else \<open>/health\<close> answers, and the pid
  reported is the listener's if the port query gives one, else the first of
  the process table scan, else \<open>?\<close>; else the pid of the meta record answers the
  signal probe, and that pid is reported with the host and port of the meta
  record; else the process table scan finds a process, and its first pid is
  reported. Each of these prints a \<open>RUNNING\<close> line and exits with 0. When all
  four fail it prints \<open>STOPPED\<close> and exits with 1. The port query is made only
  after \<open>/health\<close> has answered.
\<close>

theorem status_probes:
  assumes "read_meta env = JObj kvs"
  shows "main_status env host port =
    (if \<exists>pid. read_pid env = Some pid \<and> pid \<noteq> 0 \<and> kill0 env pid then
       ([Stdout (RUNNING (JNum (the (read_pid env))) (JStr host) (JNum port))], Exit 0)
     else if check_server_alive env then
       ([Stdout (if \<exists>q. lsof_pid2 env = Some q \<and> q \<noteq> 0
                 then RUNNING (JNum (the (lsof_pid2 env))) (JStr host) (JNum port)
                 else if find_server_pids env \<noteq> []
                 then RUNNING (JNum (hd (find_server_pids env))) (JStr host) (JNum port)
                 else RUNNING_unknown (JStr host) (JNum port))], Exit 0)
     else if \<exists>mp. map_of kvs (lit ''pid'') = Some mp \<and> truthy mp \<and> pid_running env mp then
       ([Stdout (RUNNING (the (map_of kvs (lit ''pid'')))
                   (case map_of kvs (lit ''host'') of None \<Rightarrow> JStr host | Some h \<Rightarrow> h)
                   (case map_of kvs (lit ''port'') of None \<Rightarrow> JNum port | Some q \<Rightarrow> q))], Exit 0)
     else if find_server_pids env \<noteq> [] then
       ([Stdout (RUNNING (JNum (hd (find_server_pids env))) (JStr host) (JNum port))], Exit 0)
     else ([Stdout STOPPED], Exit 1))
   \<and> snd (main_status env host port) =
       (if (\<exists>pid. read_pid env = Some pid \<and> pid \<noteq> 0 \<and> kill0 env pid)
           \<or> check_server_alive env
           \<or> (\<exists>mp. map_of kvs (lit ''pid'') = Some mp \<and> truthy mp \<and> pid_running env mp)
           \<or> find_server_pids env \<noteq> []
        then Exit 0 else Exit 1)"
proof -
  have 1: "main_status env host port =
    (if \<exists>pid. read_pid env = Some pid \<and> pid \<noteq> 0 \<and> kill0 env pid then
       ([Stdout (RUNNING (JNum (the (read_pid env))) (JStr host) (JNum port))], Exit 0)
     else if check_server_alive env then
       ([Stdout (if \<exists>q. lsof_pid2 env = Some q \<and> q \<noteq> 0
                 then RUNNING (JNum (the (lsof_pid2 env))) (JStr host) (JNum port)
                 else if find_server_pids env \<noteq> []
                 then RUNNING (JNum (hd (find_server_pids env))) (JStr host) (JNum port)
                 else RUNNING_unknown (JStr host) (JNum port))], Exit 0)
     else if \<exists>mp. map_of kvs (lit ''pid'') = Some mp \<and> truthy mp \<and> pid_running env mp then
       ([Stdout (RUNNING (the (map_of kvs (lit ''pid'')))
                   (case map_of kvs (lit ''host'') of None \<Rightarrow> JStr host | Some h \<Rightarrow> h)
                   (case map_of kvs (lit ''port'') of None \<Rightarrow> JNum port | Some q \<Rightarrow> q))], Exit 0)
     else if find_server_pids env \<noteq> [] then
       ([Stdout (RUNNING (JNum (hd (find_server_pids env))) (JStr host) (JNum port))], Exit 0)
     else ([Stdout STOPPED], Exit 1))"
    using assms
    by (auto simp: main_status_def split: option.splits list.splits)
  show ?thesis
    unfolding 1 by auto
qed

theorem status_probes_witness:
  "main_status \<lparr>kill0 = (\<lambda>p. p = 4242), check_server_alive = False, read_pid = None,
                 read_meta = JObj [(lit ''pid'', JNum 4242), (lit ''host'', JStr (lit ''localhost'')),
                                   (lit ''port'', JNum 9000)],
                 lsof_pid2 = None, lsof_listen_pid = [], find_server_pids = []\<rparr>
       (lit ''127.0.0.1'') 8765
     = ([Stdout (RUNNING (JNum 4242) (JStr (lit ''localhost'')) (JNum 9000))], Exit 0)"
  using status_probes[of "\<lparr>kill0 = (\<lambda>p. p = 4242), check_server_alive = False, read_pid = None,
                 read_meta = JObj [(lit ''pid'', JNum 4242), (lit ''host'', JStr (lit ''localhost'')),
                                   (lit ''port'', JNum 9000)],
                 lsof_pid2 = None, lsof_listen_pid = [], find_server_pids = []\<rparr>"
              "[(lit ''pid'', JNum 4242), (lit ''host'', JStr (lit ''localhost'')), (lit ''port'', JNum 9000)]"
              "lit ''127.0.0.1''" 8765]
  by simp

















end
